theory Spec2Isabelle
  imports Main "HOL-Library.Word" "HOL-Library.AList"
begin

unbundle bit_operations_syntax

section \<open>Values of the Go program\<close>

text \<open>
  The transactional state manager of \<^verbatim>\<open>openchain/ledger/statemgmt/state/state.go\<close>.
  A Go \<^verbatim>\<open>[]byte\<close> that the code compares with \<^verbatim>\<open>nil\<close> or assigns \<^verbatim>\<open>nil\<close> to is a
  \<open>slice\<close>: \<open>None\<close> is \<^verbatim>\<open>nil\<close>. A Go \<^verbatim>\<open>error\<close> result is an \<open>error option\<close>, \<open>None\<close>
  being \<^verbatim>\<open>nil\<close>, and a Go pair of results is a pair. A \<^verbatim>\<open>uint64\<close> is a \<open>64 word\<close>.
\<close>

type_synonym byte = "8 word"
type_synonym slice = "byte list option"

datatype error = Error string

text \<open>
  The value a \<^verbatim>\<open>panic\<close> carries: an \<^verbatim>\<open>error\<close> made by \<^verbatim>\<open>fmt.Errorf\<close>, a plain string, or
  the runtime's own error (an index out of range).
\<close>

datatype panic_value = PanicError string | PanicString string | RuntimeError string

section \<open>The state delta\<close>

text \<open>
  Modelled from the spec: the type \<^verbatim>\<open>statemgmt.StateDelta\<close> and its methods are not part of
  the file. The spec describes it as an ordered set of per-namespace key writes and
  deletes, a mapping from (namespace, key) to a recorded value-change (set-to-value or
  delete); an empty delta has no entries; merging delta B into delta A makes every entry
  of B override the entry of A for the same pair. Its hash and its binary encoding are
  parameters of the functions that use them.
\<close>

datatype UpdatedValue = SetTo "byte list" | Deleted

fun GetValue :: "UpdatedValue \<Rightarrow> slice" where
  "GetValue (SetTo v) = Some v"
| "GetValue Deleted = None"

type_synonym StateDelta = "((string \<times> string) \<times> UpdatedValue) list"

definition NewStateDelta :: StateDelta where
  "NewStateDelta = []"

definition delta_IsEmpty :: "StateDelta \<Rightarrow> bool" where
  "delta_IsEmpty d = (d = [])"

definition delta_Get :: "StateDelta \<Rightarrow> string \<Rightarrow> string \<Rightarrow> UpdatedValue option" where
  "delta_Get d chaincodeID key = map_of d (chaincodeID, key)"

definition delta_Set :: "StateDelta \<Rightarrow> string \<Rightarrow> string \<Rightarrow> byte list \<Rightarrow> StateDelta" where
  "delta_Set d chaincodeID key v = AList.update (chaincodeID, key) (SetTo v) d"

definition delta_Delete :: "StateDelta \<Rightarrow> string \<Rightarrow> string \<Rightarrow> StateDelta" where
  "delta_Delete d chaincodeID key = AList.update (chaincodeID, key) Deleted d"

definition delta_ApplyChanges :: "StateDelta \<Rightarrow> StateDelta \<Rightarrow> StateDelta" where
  "delta_ApplyChanges d other = AList.merge d other"

section \<open>The storage collaborators\<close>

text \<open>
  A write batch is the list of the operations staged into it, in the order of the calls
  \<^verbatim>\<open>PutCF\<close> and \<^verbatim>\<open>DeleteCF\<close>; \<open>'cf\<close> is the type of column family handles.
\<close>

datatype 'cf batch_op = PutCF 'cf "byte list" slice | DeleteCF 'cf "byte list"

type_synonym 'cf WriteBatch = "'cf batch_op list"

text \<open>
  The interface \<^verbatim>\<open>statemgmt.HashableState\<close> is implemented outside the file, so its
  methods are parameters: \<open>'p\<close> is the state of the implementation, and a method that
  may change it returns the new one.
\<close>

record ('p, 'cf) HashableState =
  impl_Initialize :: "'p \<Rightarrow> error option \<times> 'p"
  impl_Get :: "'p \<Rightarrow> string \<Rightarrow> string \<Rightarrow> slice \<times> error option"
  impl_PrepareWorkingSet :: "'p \<Rightarrow> StateDelta \<Rightarrow> 'p"
  impl_ComputeCryptoHash :: "'p \<Rightarrow> (slice \<times> error option) \<times> 'p"
  impl_ClearWorkingSet :: "'p \<Rightarrow> 'p"
  impl_AddChangesForPersistence :: "'p \<Rightarrow> 'cf WriteBatch \<Rightarrow> 'p \<times> 'cf WriteBatch"

section \<open>The state manager\<close>

record 'p State =
  stateImpl :: 'p
  stateDelta :: StateDelta
  currentTxStateDelta :: StateDelta
  currentTxUUID :: string
  txStateDeltaHash :: "string \<rightharpoonup> slice"
  updateStateImpl :: bool

definition historyStateDeltaSize :: "64 word" where
  "historyStateDeltaSize = 500"

text \<open>
  \<^verbatim>\<open>NewState\<close> initializes the implementation of the hashable state, which is in the
  state \<open>p\<close> before, and panics with the error if that fails.
\<close>

definition NewState :: "('p, 'cf) HashableState \<Rightarrow> 'p \<Rightarrow> panic_value + 'p State" where
  "NewState impl p =
     (let r = impl_Initialize impl p
      in case fst r of
           Some (Error msg) \<Rightarrow>
             Inl (PanicError (''Error during initialization of state implementation: '' @ msg))
         | None \<Rightarrow>
             Inr \<lparr>stateImpl = snd r, stateDelta = NewStateDelta,
                  currentTxStateDelta = NewStateDelta, currentTxUUID = [],
                  txStateDeltaHash = Map.empty, updateStateImpl = False\<rparr>)"

definition txInProgress :: "'p State \<Rightarrow> bool" where
  "txInProgress state = (currentTxUUID state \<noteq> [])"

text \<open>
  A method that can panic returns the panic value or its result, and the state as the
  call leaves it: at a panic, the state in which the panic was raised.
\<close>

definition TxBegin :: "'p State \<Rightarrow> string \<Rightarrow> (panic_value + unit) \<times> 'p State" where
  "TxBegin state txUUID =
     (if txInProgress state then
        (Inl (PanicError (''A tx ['' @ currentTxUUID state
            @ ''] is already in progress. Received call for begin of another tx [''
            @ txUUID @ '']'')), state)
      else (Inr (), state\<lparr>currentTxUUID := txUUID\<rparr>))"

definition TxFinish ::
  "(StateDelta \<Rightarrow> slice) \<Rightarrow> 'p State \<Rightarrow> string \<Rightarrow> bool \<Rightarrow> (panic_value + unit) \<times> 'p State" where
  "TxFinish delta_ComputeCryptoHash state txUUID txSuccessful =
     (if currentTxUUID state \<noteq> txUUID then
        (Inl (PanicError (''Different Uuid in tx-begin ['' @ currentTxUUID state
            @ ''] and tx-finish ['' @ txUUID @ '']'')), state)
      else
        let state1 =
          (if txSuccessful then
             (if \<not> delta_IsEmpty (currentTxStateDelta state) then
                state\<lparr>stateDelta :=
                        delta_ApplyChanges (stateDelta state) (currentTxStateDelta state),
                      txStateDeltaHash :=
                        (txStateDeltaHash state)
                          (txUUID \<mapsto> delta_ComputeCryptoHash (currentTxStateDelta state)),
                      updateStateImpl := True\<rparr>
              else state\<lparr>txStateDeltaHash := (txStateDeltaHash state)(txUUID \<mapsto> None)\<rparr>)
           else state)
        in (Inr (), state1\<lparr>currentTxStateDelta := NewStateDelta, currentTxUUID := []\<rparr>))"

definition Get ::
  "('p, 'cf) HashableState \<Rightarrow> 'p State \<Rightarrow> string \<Rightarrow> string \<Rightarrow> bool \<Rightarrow> slice \<times> error option" where
  "Get impl state chaincodeID key committed =
     (if \<not> committed then
        (case delta_Get (currentTxStateDelta state) chaincodeID key of
           Some valueHolder \<Rightarrow> (GetValue valueHolder, None)
         | None \<Rightarrow>
            (case delta_Get (stateDelta state) chaincodeID key of
               Some valueHolder \<Rightarrow> (GetValue valueHolder, None)
             | None \<Rightarrow> impl_Get impl (stateImpl state) chaincodeID key))
      else impl_Get impl (stateImpl state) chaincodeID key)"

definition Set ::
  "'p State \<Rightarrow> string \<Rightarrow> string \<Rightarrow> byte list \<Rightarrow> (panic_value + error option) \<times> 'p State" where
  "Set state chaincodeID key v =
     (if \<not> txInProgress state then
        (Inl (PanicString ''State can be changed only in context of a tx.''), state)
      else
        (Inr None,
         state\<lparr>currentTxStateDelta := delta_Set (currentTxStateDelta state) chaincodeID key v\<rparr>))"

definition Delete ::
  "'p State \<Rightarrow> string \<Rightarrow> string \<Rightarrow> (panic_value + error option) \<times> 'p State" where
  "Delete state chaincodeID key =
     (if \<not> txInProgress state then
        (Inl (PanicString ''State can be changed only in context of a tx.''), state)
      else
        (Inr None,
         state\<lparr>currentTxStateDelta := delta_Delete (currentTxStateDelta state) chaincodeID key\<rparr>))"

text \<open>
  The step \<^verbatim>\<open>GetHash\<close> and \<^verbatim>\<open>AddChangesForPersistence\<close> both start with: when
  \<^verbatim>\<open>updateStateImpl\<close> is set, hand \<^verbatim>\<open>stateDelta\<close> to the implementation as its working
  set and clear the flag.
\<close>

definition prepareIfNeeded :: "('p, 'cf) HashableState \<Rightarrow> 'p State \<Rightarrow> 'p State" where
  "prepareIfNeeded impl state =
     (if updateStateImpl state then
        state\<lparr>stateImpl := impl_PrepareWorkingSet impl (stateImpl state) (stateDelta state),
              updateStateImpl := False\<rparr>
      else state)"

definition GetHash ::
  "('p, 'cf) HashableState \<Rightarrow> 'p State \<Rightarrow> (slice \<times> error option) \<times> 'p State" where
  "GetHash impl state =
     (let state1 = prepareIfNeeded impl state;
          r = impl_ComputeCryptoHash impl (stateImpl state1);
          state2 = state1\<lparr>stateImpl := snd r\<rparr>
      in case snd (fst r) of
           Some err \<Rightarrow> ((None, Some err), state2)
         | None \<Rightarrow> ((fst (fst r), None), state2))"

definition GetTxStateDeltaHash :: "'p State \<Rightarrow> (string \<rightharpoonup> slice)" where
  "GetTxStateDeltaHash state = txStateDeltaHash state"

definition ClearInMemoryChanges :: "('p, 'cf) HashableState \<Rightarrow> 'p State \<Rightarrow> 'p State" where
  "ClearInMemoryChanges impl state =
     state\<lparr>stateDelta := NewStateDelta,
           txStateDeltaHash := Map.empty,
           stateImpl := impl_ClearWorkingSet impl (stateImpl state)\<rparr>"

section \<open>History keys\<close>

text \<open>
  \<^verbatim>\<open>binary.BigEndian.PutUint64\<close> on a fresh slice of 8 bytes, and
  \<^verbatim>\<open>binary.BigEndian.Uint64\<close>, which reads the first 8 bytes and panics (index out of
  range) on a shorter slice.
\<close>

definition encodeUint64 :: "64 word \<Rightarrow> byte list" where
  "encodeUint64 number =
     [ucast (drop_bit 56 number), ucast (drop_bit 48 number), ucast (drop_bit 40 number),
      ucast (drop_bit 32 number), ucast (drop_bit 24 number), ucast (drop_bit 16 number),
      ucast (drop_bit 8 number), ucast number]"

fun decodeToUint64 :: "byte list \<Rightarrow> panic_value + 64 word" where
  "decodeToUint64 (b0 # b1 # b2 # b3 # b4 # b5 # b6 # b7 # rest) =
     Inr (ucast b7 OR push_bit 8 (ucast b6) OR push_bit 16 (ucast b5)
          OR push_bit 24 (ucast b4) OR push_bit 32 (ucast b3) OR push_bit 40 (ucast b2)
          OR push_bit 48 (ucast b1) OR push_bit 56 (ucast b0))"
| "decodeToUint64 bytes = Inl (RuntimeError ''index out of range'')"

definition encodeStateDeltaKey :: "64 word \<Rightarrow> byte list" where
  "encodeStateDeltaKey blockNumber = encodeUint64 blockNumber"

definition decodeStateDeltaKey :: "byte list \<Rightarrow> panic_value + 64 word" where
  "decodeStateDeltaKey dbkey = decodeToUint64 dbkey"

text \<open>
  The order of the keys in the store: bytewise lexicographic comparison, a proper prefix
  being smaller.
\<close>

fun bytes_less :: "byte list \<Rightarrow> byte list \<Rightarrow> bool" where
  "bytes_less [] [] = False"
| "bytes_less [] (y # ys) = True"
| "bytes_less (x # xs) [] = False"
| "bytes_less (x # xs) (y # ys) = (x < y \<or> (x = y \<and> bytes_less xs ys))"

section \<open>Reading and staging the history of deltas\<close>

text \<open>
  \<^verbatim>\<open>db.GetDBHandle().GetFromStateDeltaCF\<close> and the delta's \<^verbatim>\<open>Unmarshal\<close> are parameters;
  \<^verbatim>\<open>Unmarshal\<close> fills the receiver, here a new delta. The method does not use its
  receiver \<^verbatim>\<open>state\<close>.
\<close>

definition FetchStateDeltaFromDB ::
  "(byte list \<Rightarrow> slice \<times> error option) \<Rightarrow> (StateDelta \<Rightarrow> byte list \<Rightarrow> StateDelta)
     \<Rightarrow> 64 word \<Rightarrow> StateDelta option \<times> error option" where
  "FetchStateDeltaFromDB GetFromStateDeltaCF delta_Unmarshal blockNumber =
     (let r = GetFromStateDeltaCF (encodeStateDeltaKey blockNumber)
      in case snd r of
           Some err \<Rightarrow> (None, Some err)
         | None \<Rightarrow>
            (case fst r of
               None \<Rightarrow> (None, None)
             | Some stateDeltaBytes \<Rightarrow>
                 (Some (delta_Unmarshal NewStateDelta stateDeltaBytes), None)))"

text \<open>
  \<open>cf\<close> is \<^verbatim>\<open>db.GetDBHandle().StateDeltaCF\<close>, and \<open>delta_Marshal\<close> the delta's
  \<^verbatim>\<open>Marshal\<close>. The subtraction is the one of \<^verbatim>\<open>uint64\<close>, which wraps around.
\<close>

definition AddChangesForPersistence ::
  "('p, 'cf) HashableState \<Rightarrow> (StateDelta \<Rightarrow> slice) \<Rightarrow> 'cf \<Rightarrow> 'p State \<Rightarrow> 64 word
     \<Rightarrow> 'cf WriteBatch \<Rightarrow> 'p State \<times> 'cf WriteBatch" where
  "AddChangesForPersistence impl delta_Marshal cf state blockNumber writeBatch =
     (let state1 = prepareIfNeeded impl state;
          r = impl_AddChangesForPersistence impl (stateImpl state1) writeBatch;
          state2 = state1\<lparr>stateImpl := fst r\<rparr>;
          serializedStateDelta = delta_Marshal (stateDelta state2);
          writeBatch1 = snd r @ [PutCF cf (encodeStateDeltaKey blockNumber) serializedStateDelta]
      in if blockNumber \<ge> historyStateDeltaSize then
           (let blockNumberToDelete = blockNumber - historyStateDeltaSize
            in (state2, writeBatch1 @ [DeleteCF cf (encodeStateDeltaKey blockNumberToDelete)]))
         else (state2, writeBatch1))"

text \<open>
  Modelled from the spec: the storage engine is not part of the file. Committing a write
  batch applies its operations in the order they were staged; \<open>Write_cf cf\<close> is the
  effect of the commit on the content of the column family \<open>cf\<close>.
\<close>

fun Write_cf :: "'cf \<Rightarrow> 'cf WriteBatch \<Rightarrow> (byte list \<rightharpoonup> slice) \<Rightarrow> (byte list \<rightharpoonup> slice)" where
  "Write_cf cf [] m = m"
| "Write_cf cf (PutCF c k v # ops) m = Write_cf cf ops (if c = cf then m(k \<mapsto> v) else m)"
| "Write_cf cf (DeleteCF c k # ops) m = Write_cf cf ops (if c = cf then m(k := None) else m)"

text \<open>The column family an operation of a batch writes to.\<close>

fun op_cf :: "'cf batch_op \<Rightarrow> 'cf" where
  "op_cf (PutCF c k v) = c"
| "op_cf (DeleteCF c k) = c"

text \<open>
  Modelled from the spec: the driver of a block is not part of the file. After the
  transactions of a block it asks for the hash of the state, stages the changes into a
  write batch, commits the batch, and then clears the changes in memory. \<open>commit_block\<close>
  does this for one block, on the manager and the content of the column family of the
  history.
\<close>

definition commit_block ::
  "('p, 'cf) HashableState \<Rightarrow> (StateDelta \<Rightarrow> slice) \<Rightarrow> 'cf
     \<Rightarrow> 'p State \<times> (byte list \<rightharpoonup> slice) \<Rightarrow> 64 word \<Rightarrow> 'p State \<times> (byte list \<rightharpoonup> slice)" where
  "commit_block impl delta_Marshal cf sl blockNumber =
     (let h = GetHash impl (fst sl);
          r = AddChangesForPersistence impl delta_Marshal cf (snd h) blockNumber []
      in (ClearInMemoryChanges impl (fst r), Write_cf cf (snd r) (snd sl)))"

text \<open>
  The block numbers of the retention window when \<open>m\<close> is the number of the next block:
  the \<open>historyStateDeltaSize\<close> numbers below \<open>m\<close>.
\<close>

definition history_window :: "nat \<Rightarrow> 64 word set" where
  "history_window m = {k. unat k < m \<and> m \<le> unat k + unat historyStateDeltaSize}"

section \<open>Go's two forms of map lookup\<close>

text \<open>
  \<^verbatim>\<open>v := m[k]\<close> yields the zero value, a \<^verbatim>\<open>nil\<close> slice, for a key without entry;
  \<^verbatim>\<open>v, ok := m[k]\<close> also tells whether the key has an entry.
\<close>

definition map_index :: "(string \<rightharpoonup> slice) \<Rightarrow> string \<Rightarrow> slice" where
  "map_index m k = (case m k of None \<Rightarrow> None | Some v \<Rightarrow> v)"

definition map_lookup :: "(string \<rightharpoonup> slice) \<Rightarrow> string \<Rightarrow> slice \<times> bool" where
  "map_lookup m k = (case m k of None \<Rightarrow> (None, False) | Some v \<Rightarrow> (v, True))"

section \<open>Counting the calls of the collaborator\<close>

text \<open>
  A test double around any implementation of the hashable state: it behaves as the
  implementation does and counts the calls of \<^verbatim>\<open>PrepareWorkingSet\<close>.
\<close>

definition counting :: "('p, 'cf) HashableState \<Rightarrow> ('p \<times> nat, 'cf) HashableState" where
  "counting impl =
     \<lparr>impl_Initialize =
        (\<lambda>q. (fst (impl_Initialize impl (fst q)), (snd (impl_Initialize impl (fst q)), snd q))),
      impl_Get = (\<lambda>q. impl_Get impl (fst q)),
      impl_PrepareWorkingSet = (\<lambda>q d. (impl_PrepareWorkingSet impl (fst q) d, Suc (snd q))),
      impl_ComputeCryptoHash =
        (\<lambda>q. (fst (impl_ComputeCryptoHash impl (fst q)),
              (snd (impl_ComputeCryptoHash impl (fst q)), snd q))),
      impl_ClearWorkingSet = (\<lambda>q. (impl_ClearWorkingSet impl (fst q), snd q)),
      impl_AddChangesForPersistence =
        (\<lambda>q wb. ((fst (impl_AddChangesForPersistence impl (fst q) wb), snd q),
                 snd (impl_AddChangesForPersistence impl (fst q) wb)))\<rparr>"

section \<open>Concrete collaborators\<close>

text \<open>
  Collaborators to run the manager on concrete inputs: two column families, one for the
  state and one for the history of deltas; and a hashable state that keeps the working
  set it was given last, whose hash is the number of entries of the working set, and
  which stages one write of its own, into the column family of the state.
\<close>

datatype cf_handle = StateCF | StateDeltaCF

definition double_impl :: "(StateDelta, cf_handle) HashableState" where
  "double_impl =
     \<lparr>impl_Initialize = (\<lambda>p. (None, [])),
      impl_Get = (\<lambda>p chaincodeID key. (None, None)),
      impl_PrepareWorkingSet = (\<lambda>p d. d),
      impl_ComputeCryptoHash = (\<lambda>p. ((Some [of_nat (length p)], None), p)),
      impl_ClearWorkingSet = (\<lambda>p. []),
      impl_AddChangesForPersistence = (\<lambda>p wb. (p, wb @ [PutCF StateCF [0] (Some [1])]))\<rparr>"

definition double_hash :: "StateDelta \<Rightarrow> slice" where
  "double_hash d = Some [of_nat (length d), 7]"

definition double_Marshal :: "StateDelta \<Rightarrow> slice" where
  "double_Marshal d = Some (map (of_nat \<circ> length \<circ> snd \<circ> fst) d)"

definition double_Unmarshal :: "StateDelta \<Rightarrow> byte list \<Rightarrow> StateDelta" where
  "double_Unmarshal d bs = d @ [((''cc'', ''k''), SetTo bs)]"

text \<open>A read of the history from the content \<open>m\<close> of its column family, failing on demand.\<close>

definition double_GetFromStateDeltaCF ::
  "bool \<Rightarrow> (byte list \<rightharpoonup> slice) \<Rightarrow> byte list \<Rightarrow> slice \<times> error option" where
  "double_GetFromStateDeltaCF broken m k =
     (if broken then (None, Some (Error ''IO error''))
      else case m k of None \<Rightarrow> (None, None) | Some v \<Rightarrow> (v, None))"



text \<open>
  A fresh manager; one in which transaction t1 has written one key; one in which t1 has
  finished with success; and one in which transaction t3 has then begun.
\<close>

definition state_fresh :: "(StateDelta \<times> nat) State" where
  "state_fresh = projr (NewState (counting double_impl) ([], 0))"

definition state_t1 :: "(StateDelta \<times> nat) State" where
  "state_t1 = snd (Set (snd (TxBegin state_fresh ''t1'')) ''cc1'' ''k1'' [118, 49])"

definition state_done :: "(StateDelta \<times> nat) State" where
  "state_done = snd (TxFinish double_hash state_t1 ''t1'' True)"

definition state_t3 :: "(StateDelta \<times> nat) State" where
  "state_t3 = snd (TxBegin state_done ''t3'')"

section \<open>History keys: round trip and order\<close>

lemma encodeUint64_length: "length (encodeUint64 n) = 8"
  by (simp add: encodeUint64_def)

lemma decode_encodeUint64: "decodeToUint64 (encodeUint64 n) = Inr n"
proof -
  have "ucast (ucast n :: byte) OR push_bit 8 (ucast (ucast (drop_bit 8 n) :: byte))
        OR push_bit 16 (ucast (ucast (drop_bit 16 n) :: byte))
        OR push_bit 24 (ucast (ucast (drop_bit 24 n) :: byte))
        OR push_bit 32 (ucast (ucast (drop_bit 32 n) :: byte))
        OR push_bit 40 (ucast (ucast (drop_bit 40 n) :: byte))
        OR push_bit 48 (ucast (ucast (drop_bit 48 n) :: byte))
        OR push_bit 56 (ucast (ucast (drop_bit 56 n) :: byte)) = n"
    (is "?d = n")
  proof (rule bit_word_eqI)
    fix i :: nat
    assume "i < LENGTH(64)"
    then have "i < 64" by simp
    then consider "i < 8" | "8 \<le> i \<and> i < 16" | "16 \<le> i \<and> i < 24" | "24 \<le> i \<and> i < 32"
      | "32 \<le> i \<and> i < 40" | "40 \<le> i \<and> i < 48" | "48 \<le> i \<and> i < 56" | "56 \<le> i \<and> i < 64"
      by linarith
    then show "bit ?d i = bit n i"
    proof cases
      case 1 then show ?thesis by (auto simp add: bit_simps)
    next
      case 2 then show ?thesis by (auto simp add: bit_simps)
    next
      case 3 then show ?thesis by (auto simp add: bit_simps)
    next
      case 4 then show ?thesis by (auto simp add: bit_simps)
    next
      case 5 then show ?thesis by (auto simp add: bit_simps)
    next
      case 6 then show ?thesis by (auto simp add: bit_simps)
    next
      case 7 then show ?thesis by (auto simp add: bit_simps)
    next
      case 8 then show ?thesis by (auto simp add: bit_simps)
    qed
  qed
  then show ?thesis
    by (simp add: encodeUint64_def)
qed

text \<open>
  Comparing two numbers in base \<open>B\<close>: the leading digits decide, and the rest only when
  they are equal.
\<close>

lemma nat_digit_less:
  fixes a a' r r' B :: nat
  assumes "r < B" and "r' < B"
  shows "(B * a + r < B * a' + r') = (a < a' \<or> (a = a' \<and> r < r'))"
proof (cases a a' rule: linorder_cases)
  case less
  then have "Suc a \<le> a'" by simp
  then have "B * Suc a \<le> B * a'" by (rule mult_le_mono2)
  with assms less show ?thesis by simp
next
  case equal
  then show ?thesis by simp
next
  case greater
  then have "Suc a' \<le> a" by simp
  then have "B * Suc a' \<le> B * a" by (rule mult_le_mono2)
  with assms greater show ?thesis by simp
qed

lemma unat_byte_of:
  fixes n :: "64 word"
  shows "unat (ucast (drop_bit (8 * k) n) :: byte) = unat n div 2 ^ (8 * k) mod 256"
proof -
  have "unat (ucast (drop_bit (8 * k) n) :: byte) = take_bit 8 (drop_bit (8 * k) (unat n))"
    by (simp only: unsigned_ucast_eq unat_drop_bit_eq) simp
  then show ?thesis
    by (simp add: drop_bit_eq_div take_bit_eq_mod)
qed

lemma low_bytes_split:
  fixes x :: nat
  shows "x mod 2 ^ (8 * Suc k) = 2 ^ (8 * k) * (x div 2 ^ (8 * k) mod 256) + x mod 2 ^ (8 * k)"
proof -
  have "(2::nat) ^ (8 * Suc k) = 2 ^ (8 * k) * 256" by (simp add: power_add)
  then show ?thesis by (simp add: mod_mult2_eq)
qed

text \<open>The \<open>k\<close> low bytes of a number, the most significant first, order as the number they hold.\<close>

lemma low_bytes_less:
  fixes m n :: "64 word"
  shows "bytes_less (map (\<lambda>i. ucast (drop_bit (8 * i) m)) (rev [0..<k]))
                    (map (\<lambda>i. ucast (drop_bit (8 * i) n)) (rev [0..<k]))
         = (unat m mod 2 ^ (8 * k) < unat n mod 2 ^ (8 * k))"
proof (induction k)
  case 0
  show ?case by simp
next
  case (Suc k)
  have lt: "((ucast (drop_bit (8 * k) m) :: byte) < ucast (drop_bit (8 * k) n))
      = (unat m div 2 ^ (8 * k) mod 256 < unat n div 2 ^ (8 * k) mod 256)"
    by (simp only: word_less_nat_alt unat_byte_of)
  have eq: "((ucast (drop_bit (8 * k) m) :: byte) = ucast (drop_bit (8 * k) n))
      = (unat m div 2 ^ (8 * k) mod 256 = unat n div 2 ^ (8 * k) mod 256)"
    by (simp only: word_unat_eq_iff unat_byte_of)
  have "(unat m mod 2 ^ (8 * Suc k) < unat n mod 2 ^ (8 * Suc k))
     = (unat m div 2 ^ (8 * k) mod 256 < unat n div 2 ^ (8 * k) mod 256
        \<or> (unat m div 2 ^ (8 * k) mod 256 = unat n div 2 ^ (8 * k) mod 256
           \<and> unat m mod 2 ^ (8 * k) < unat n mod 2 ^ (8 * k)))"
    by (simp only: low_bytes_split) (rule nat_digit_less, simp_all)
  with Suc lt eq show ?case by simp
qed

lemma encodeUint64_as_map:
  "encodeUint64 n = map (\<lambda>i. ucast (drop_bit (8 * i) n)) (rev [0..<8])"
  by (simp add: encodeUint64_def upt_rec)

lemma encodeUint64_less: "bytes_less (encodeUint64 m) (encodeUint64 n) = (m < n)"
proof -
  have "unat m < 2 ^ 64" and "unat n < 2 ^ 64"
    using unsigned_less [of m] unsigned_less [of n] by simp_all
  then have "unat m mod 2 ^ (8 * 8) = unat m" and "unat n mod 2 ^ (8 * 8) = unat n"
    by simp_all
  then show ?thesis
    by (simp only: encodeUint64_as_map low_bytes_less word_less_nat_alt)
qed

lemma encodeUint64_inject: "(encodeUint64 m = encodeUint64 n) = (m = n)"
proof
  assume "encodeUint64 m = encodeUint64 n"
  then have "decodeToUint64 (encodeUint64 m) = decodeToUint64 (encodeUint64 n)" by simp
  then show "m = n" by (simp only: decode_encodeUint64 sum.inject)
qed simp

text \<open>
  C8. The history key of a block number is its 8-byte big-endian encoding: decoding the
  key of \<open>n\<close> gives \<open>n\<close> back, every key has exactly 8 bytes, and the key of \<open>m\<close> is
  smaller than the key of \<open>n\<close> in bytewise lexicographic order exactly when \<open>m < n\<close>.
\<close>

theorem history_key_big_endian:
  "decodeStateDeltaKey (encodeStateDeltaKey n) = Inr n
   \<and> length (encodeStateDeltaKey n) = 8
   \<and> bytes_less (encodeStateDeltaKey m) (encodeStateDeltaKey n) = (m < n)"
  by (simp add: decodeStateDeltaKey_def encodeStateDeltaKey_def decode_encodeUint64
      encodeUint64_length encodeUint64_less)

section \<open>The transaction scope\<close>

text \<open>The concrete states, evaluated.\<close>

lemma state_fresh_eval:
  "state_fresh = \<lparr>stateImpl = ([], 0), stateDelta = [], currentTxStateDelta = [],
      currentTxUUID = [], txStateDeltaHash = Map.empty, updateStateImpl = False\<rparr>"
  by (simp add: state_fresh_def NewState_def NewStateDelta_def counting_def double_impl_def)

lemma state_t1_eval:
  "state_t1 = \<lparr>stateImpl = ([], 0), stateDelta = [],
      currentTxStateDelta = [((''cc1'', ''k1''), SetTo [118, 49])],
      currentTxUUID = ''t1'', txStateDeltaHash = Map.empty, updateStateImpl = False\<rparr>"
  by (simp add: state_t1_def state_fresh_eval TxBegin_def Set_def txInProgress_def delta_Set_def)

lemma state_done_eval:
  "state_done = \<lparr>stateImpl = ([], 0), stateDelta = [((''cc1'', ''k1''), SetTo [118, 49])],
      currentTxStateDelta = [],
      currentTxUUID = [], txStateDeltaHash = [''t1'' \<mapsto> Some [1, 7]], updateStateImpl = True\<rparr>"
  by (simp add: state_done_def state_t1_eval TxFinish_def delta_IsEmpty_def delta_ApplyChanges_def
      AList.merge_def double_hash_def NewStateDelta_def)

lemma state_t3_eval:
  "state_t3 = \<lparr>stateImpl = ([], 0), stateDelta = [((''cc1'', ''k1''), SetTo [118, 49])],
      currentTxStateDelta = [],
      currentTxUUID = ''t3'', txStateDeltaHash = [''t1'' \<mapsto> Some [1, 7]], updateStateImpl = True\<rparr>"
  by (simp add: state_t3_def state_done_eval TxBegin_def txInProgress_def)

text \<open>Merging a delta: its entries override those of the delta it is merged into.\<close>

lemma delta_ApplyChanges_Get:
  "delta_Get (delta_ApplyChanges d other) c k =
     (case delta_Get other c k of Some v \<Rightarrow> Some v | None \<Rightarrow> delta_Get d c k)"
  by (simp add: delta_Get_def delta_ApplyChanges_def merge_conv' map_add_def split: option.split)

lemma delta_IsEmpty_New: "delta_IsEmpty NewStateDelta"
  by (simp add: delta_IsEmpty_def NewStateDelta_def)

text \<open>
  C1. In a state with a transaction in flight whose id is the given one: finishing with
  success and a non-empty delta of the transaction merges that delta into the aggregate
  delta, where its entries override those of the aggregate delta, records its hash under
  the id and sets the flag \<^verbatim>\<open>updateStateImpl\<close>;
  finishing with failure merges nothing and records no hash; and in every case the call
  returns, the delta of the transaction is a new, empty delta, and no transaction is in
  flight afterwards.
\<close>

theorem TxFinish_in_flight:
  assumes "txInProgress state" and "currentTxUUID state = txUUID"
  shows "(\<not> delta_IsEmpty (currentTxStateDelta state) \<longrightarrow>
            stateDelta (snd (TxFinish delta_ComputeCryptoHash state txUUID True))
              = delta_ApplyChanges (stateDelta state) (currentTxStateDelta state)
          \<and> txStateDeltaHash (snd (TxFinish delta_ComputeCryptoHash state txUUID True))
              = (txStateDeltaHash state)
                  (txUUID \<mapsto> delta_ComputeCryptoHash (currentTxStateDelta state))
          \<and> delta_Get (stateDelta (snd (TxFinish delta_ComputeCryptoHash state txUUID True)))
                chaincodeID key
              = (case delta_Get (currentTxStateDelta state) chaincodeID key of
                   Some v \<Rightarrow> Some v
                 | None \<Rightarrow> delta_Get (stateDelta state) chaincodeID key)
          \<and> updateStateImpl (snd (TxFinish delta_ComputeCryptoHash state txUUID True)))
       \<and> stateDelta (snd (TxFinish delta_ComputeCryptoHash state txUUID False)) = stateDelta state
       \<and> txStateDeltaHash (snd (TxFinish delta_ComputeCryptoHash state txUUID False))
            = txStateDeltaHash state
       \<and> updateStateImpl (snd (TxFinish delta_ComputeCryptoHash state txUUID False))
            = updateStateImpl state
       \<and> fst (TxFinish delta_ComputeCryptoHash state txUUID successful) = Inr ()
       \<and> currentTxStateDelta (snd (TxFinish delta_ComputeCryptoHash state txUUID successful))
            = NewStateDelta
       \<and> delta_IsEmpty
            (currentTxStateDelta (snd (TxFinish delta_ComputeCryptoHash state txUUID successful)))
       \<and> currentTxUUID (snd (TxFinish delta_ComputeCryptoHash state txUUID successful)) = []
       \<and> \<not> txInProgress (snd (TxFinish delta_ComputeCryptoHash state txUUID successful))
       \<and> stateImpl (snd (TxFinish delta_ComputeCryptoHash state txUUID successful))
            = stateImpl state"
  using assms
  by (simp add: TxFinish_def txInProgress_def delta_IsEmpty_New delta_ApplyChanges_Get Let_def)

text \<open>Transaction t1, with one write, finished with success and with failure.\<close>

theorem TxFinish_in_flight_witness:
  "txInProgress state_t1 \<and> currentTxUUID state_t1 = ''t1''
   \<and> \<not> delta_IsEmpty (currentTxStateDelta state_t1)
   \<and> stateDelta (snd (TxFinish double_hash state_t1 ''t1'' True))
        = [((''cc1'', ''k1''), SetTo [118, 49])]
   \<and> txStateDeltaHash (snd (TxFinish double_hash state_t1 ''t1'' True)) = [''t1'' \<mapsto> Some [1, 7]]
   \<and> updateStateImpl (snd (TxFinish double_hash state_t1 ''t1'' True))
   \<and> stateDelta (snd (TxFinish double_hash state_t1 ''t1'' False)) = []
   \<and> txStateDeltaHash (snd (TxFinish double_hash state_t1 ''t1'' False)) = Map.empty
   \<and> \<not> updateStateImpl (snd (TxFinish double_hash state_t1 ''t1'' False))
   \<and> fst (TxFinish double_hash state_t1 ''t1'' True) = Inr ()
   \<and> currentTxStateDelta (snd (TxFinish double_hash state_t1 ''t1'' True)) = []
   \<and> currentTxUUID (snd (TxFinish double_hash state_t1 ''t1'' True)) = []"
proof -
  have a: "txInProgress state_t1"
    by (simp add: state_t1_eval txInProgress_def)
  have b: "currentTxUUID state_t1 = ''t1''"
    by (simp add: state_t1_eval)
  have c: "\<not> delta_IsEmpty (currentTxStateDelta state_t1)"
    by (simp add: state_t1_eval delta_IsEmpty_def)
  have d: "delta_ApplyChanges (stateDelta state_t1) (currentTxStateDelta state_t1)
      = [((''cc1'', ''k1''), SetTo [118, 49])]"
    by (simp add: state_t1_eval delta_ApplyChanges_def AList.merge_def)
  have e: "double_hash (currentTxStateDelta state_t1) = Some [1, 7]"
    by (simp add: state_t1_eval double_hash_def)
  have f: "stateDelta state_t1 = []" "txStateDeltaHash state_t1 = Map.empty"
    "\<not> updateStateImpl state_t1"
    by (simp_all add: state_t1_eval)
  from TxFinish_in_flight [OF a b, of double_hash _ _ True] a b c d e f
  show ?thesis
    by (simp add: NewStateDelta_def)
qed

text \<open>
  C2. A read that is not restricted to committed values returns the value of the entry
  in the delta of the transaction in flight if there is one, otherwise that of the entry
  in the aggregate delta if there is one, otherwise what the hashable state returns; a
  read of committed values returns what the hashable state returns, whatever the deltas
  hold.
\<close>

theorem Get_three_tiers:
  "(delta_Get (currentTxStateDelta state) chaincodeID key = Some v \<longrightarrow>
      Get impl state chaincodeID key False = (GetValue v, None))
   \<and> (delta_Get (currentTxStateDelta state) chaincodeID key = None
        \<and> delta_Get (stateDelta state) chaincodeID key = Some v \<longrightarrow>
      Get impl state chaincodeID key False = (GetValue v, None))
   \<and> (delta_Get (currentTxStateDelta state) chaincodeID key = None
        \<and> delta_Get (stateDelta state) chaincodeID key = None \<longrightarrow>
      Get impl state chaincodeID key False = impl_Get impl (stateImpl state) chaincodeID key)
   \<and> Get impl state chaincodeID key True = impl_Get impl (stateImpl state) chaincodeID key"
  by (simp add: Get_def)

text \<open>The key written by t1, read during t1, after t1, and in a fresh manager.\<close>

theorem Get_three_tiers_witness:
  "delta_Get (currentTxStateDelta state_t1) ''cc1'' ''k1'' = Some (SetTo [118, 49])
   \<and> Get (counting double_impl) state_t1 ''cc1'' ''k1'' False = (Some [118, 49], None)
   \<and> delta_Get (currentTxStateDelta state_done) ''cc1'' ''k1'' = None
   \<and> delta_Get (stateDelta state_done) ''cc1'' ''k1'' = Some (SetTo [118, 49])
   \<and> Get (counting double_impl) state_done ''cc1'' ''k1'' False = (Some [118, 49], None)
   \<and> delta_Get (currentTxStateDelta state_fresh) ''cc1'' ''k1'' = None
   \<and> delta_Get (stateDelta state_fresh) ''cc1'' ''k1'' = None
   \<and> Get (counting double_impl) state_fresh ''cc1'' ''k1'' False = (None, None)
   \<and> Get (counting double_impl) state_done ''cc1'' ''k1'' True = (None, None)"
proof -
  have a: "delta_Get (currentTxStateDelta state_t1) ''cc1'' ''k1'' = Some (SetTo [118, 49])"
    by (simp add: state_t1_eval delta_Get_def)
  have b: "delta_Get (currentTxStateDelta state_done) ''cc1'' ''k1'' = None"
    "delta_Get (stateDelta state_done) ''cc1'' ''k1'' = Some (SetTo [118, 49])"
    by (simp_all add: state_done_eval delta_Get_def)
  have c: "delta_Get (currentTxStateDelta state_fresh) ''cc1'' ''k1'' = None"
    "delta_Get (stateDelta state_fresh) ''cc1'' ''k1'' = None"
    by (simp_all add: state_fresh_eval delta_Get_def)
  have g: "impl_Get (counting double_impl) p ''cc1'' ''k1'' = (None, None)" for p
    by (simp add: counting_def double_impl_def)
  from Get_three_tiers [of state_t1 "''cc1''" "''k1''" "SetTo [118, 49]" "counting double_impl"]
    Get_three_tiers [of state_done "''cc1''" "''k1''" "SetTo [118, 49]" "counting double_impl"]
    Get_three_tiers [of state_fresh "''cc1''" "''k1''" "SetTo [118, 49]" "counting double_impl"]
    a b c
  show ?thesis
    by (simp add: g)
qed

text \<open>
  C5. Each violation of the protocol panics and leaves the whole state, the deltas and
  the hashable state included, as it was: \<^verbatim>\<open>TxBegin\<close> while a transaction is in flight,
  \<^verbatim>\<open>TxFinish\<close> with an id other than the current one, \<^verbatim>\<open>Set\<close> and \<^verbatim>\<open>Delete\<close> while no
  transaction is in flight.
\<close>

theorem violations_panic:
  "(txInProgress state \<longrightarrow>
      isl (fst (TxBegin state txUUID)) \<and> snd (TxBegin state txUUID) = state)
   \<and> (currentTxUUID state \<noteq> txUUID \<longrightarrow>
      isl (fst (TxFinish delta_ComputeCryptoHash state txUUID txSuccessful))
      \<and> snd (TxFinish delta_ComputeCryptoHash state txUUID txSuccessful) = state)
   \<and> (\<not> txInProgress state \<longrightarrow>
      isl (fst (Set state chaincodeID key v)) \<and> snd (Set state chaincodeID key v) = state
      \<and> isl (fst (Delete state chaincodeID key)) \<and> snd (Delete state chaincodeID key) = state)"
  by (simp add: TxBegin_def TxFinish_def Set_def Delete_def)

text \<open>The four violations on concrete states, with the values of the panics.\<close>

theorem violations_panic_witness:
  "txInProgress state_t1
   \<and> TxBegin state_t1 ''t2''
       = (Inl (PanicError
            ''A tx [t1] is already in progress. Received call for begin of another tx [t2]''),
          state_t1)
   \<and> currentTxUUID state_t1 \<noteq> ''t2''
   \<and> TxFinish double_hash state_t1 ''t2'' True
       = (Inl (PanicError ''Different Uuid in tx-begin [t1] and tx-finish [t2]''), state_t1)
   \<and> \<not> txInProgress state_fresh
   \<and> Set state_fresh ''cc1'' ''k1'' [118, 49]
       = (Inl (PanicString ''State can be changed only in context of a tx.''), state_fresh)
   \<and> Delete state_fresh ''cc1'' ''k1''
       = (Inl (PanicString ''State can be changed only in context of a tx.''), state_fresh)"
proof -
  have a: "txInProgress state_t1" "currentTxUUID state_t1 = ''t1''"
    by (simp_all add: state_t1_eval txInProgress_def)
  have b: "\<not> txInProgress state_fresh"
    by (simp add: state_fresh_eval txInProgress_def)
  from violations_panic [of state_t1 "''t2''" double_hash True]
    violations_panic [of state_fresh "''t2''" double_hash True "''cc1''" "''k1''" "[118, 49]"]
    a b
  show ?thesis
    by (simp add: TxBegin_def TxFinish_def Set_def Delete_def)
qed

section \<open>Transactions without writes, and finishing without beginning\<close>

text \<open>
  The plain index expression cannot tell a key without entry from a key whose entry is
  \<^verbatim>\<open>nil\<close>; the lookup with two results can.
\<close>

lemma map_index_conflates:
  "map_index (m(k := None)) k = None \<and> map_index (m(k \<mapsto> None)) k = None"
  by (simp add: map_index_def)

text \<open>
  C7, amended. After a transaction finished with success and an empty delta, the map of
  hashes has an entry for its id, and the value of the entry is \<^verbatim>\<open>nil\<close>. The lookup
  with two results reports the entry, and reports none for any other id that had no
  entry before the call; the plain lookup returns \<^verbatim>\<open>nil\<close> for the id of the transaction
  as it does for those other ids.
\<close>

theorem TxFinish_empty_marker:
  assumes "currentTxUUID state = txUUID"
    and "delta_IsEmpty (currentTxStateDelta state)"
  shows "txStateDeltaHash (snd (TxFinish delta_ComputeCryptoHash state txUUID True))
           = (txStateDeltaHash state)(txUUID \<mapsto> None)
       \<and> map_lookup (GetTxStateDeltaHash (snd (TxFinish delta_ComputeCryptoHash state txUUID True)))
            txUUID = (None, True)
       \<and> map_index (GetTxStateDeltaHash (snd (TxFinish delta_ComputeCryptoHash state txUUID True)))
            txUUID = None
       \<and> (other \<noteq> txUUID \<and> GetTxStateDeltaHash state other = None \<longrightarrow>
            map_lookup
              (GetTxStateDeltaHash (snd (TxFinish delta_ComputeCryptoHash state txUUID True)))
              other = (None, False)
            \<and> map_index
              (GetTxStateDeltaHash (snd (TxFinish delta_ComputeCryptoHash state txUUID True)))
              other = None)"
  using assms
  by (simp add: TxFinish_def GetTxStateDeltaHash_def map_lookup_def map_index_def)

text \<open>
  Transaction t3 writes nothing and finishes with success; no transaction t4 has run.
\<close>

theorem TxFinish_empty_marker_witness:
  "currentTxUUID state_t3 = ''t3'' \<and> delta_IsEmpty (currentTxStateDelta state_t3)
   \<and> ''t4'' \<noteq> ''t3'' \<and> GetTxStateDeltaHash state_t3 ''t4'' = None
   \<and> txStateDeltaHash (snd (TxFinish double_hash state_t3 ''t3'' True))
        = [''t1'' \<mapsto> Some [1, 7], ''t3'' \<mapsto> None]
   \<and> map_lookup (GetTxStateDeltaHash (snd (TxFinish double_hash state_t3 ''t3'' True))) ''t3''
        = (None, True)
   \<and> map_lookup (GetTxStateDeltaHash (snd (TxFinish double_hash state_t3 ''t3'' True))) ''t4''
        = (None, False)
   \<and> map_index (GetTxStateDeltaHash (snd (TxFinish double_hash state_t3 ''t3'' True))) ''t3''
        = None
   \<and> map_index (GetTxStateDeltaHash (snd (TxFinish double_hash state_t3 ''t3'' True))) ''t4''
        = None"
proof -
  have a: "currentTxUUID state_t3 = ''t3''"
    by (simp add: state_t3_eval)
  have b: "delta_IsEmpty (currentTxStateDelta state_t3)"
    by (simp add: state_t3_eval delta_IsEmpty_def)
  have c: "txStateDeltaHash state_t3 = [''t1'' \<mapsto> Some [1, 7]]"
    by (simp add: state_t3_eval)
  have d: "''t4'' \<noteq> ''t3''" "GetTxStateDeltaHash state_t3 ''t4'' = None"
    by (simp_all add: GetTxStateDeltaHash_def c)
  from TxFinish_empty_marker [OF a b, of double_hash "''t4''"] a b c d
  show ?thesis
    by simp
qed

text \<open>
  C7 as stated fails: the entry is no marker of its own but \<^verbatim>\<open>nil\<close>, the value that the
  lookup of an id without entry returns as well. After transaction t3, which wrote
  nothing and finished with success, the lookup of t3 and the lookup of t4, which never
  ran, return the same.
\<close>

theorem empty_marker_is_nil_counterexample:
  "GetTxStateDeltaHash (snd (TxFinish double_hash state_t3 ''t3'' True)) ''t3'' = Some None
   \<and> GetTxStateDeltaHash (snd (TxFinish double_hash state_t3 ''t3'' True)) ''t4'' = None
   \<and> map_index (GetTxStateDeltaHash (snd (TxFinish double_hash state_t3 ''t3'' True))) ''t3''
      = map_index (GetTxStateDeltaHash (snd (TxFinish double_hash state_t3 ''t3'' True))) ''t4''"
  by (simp add: TxFinish_def state_t3_eval delta_IsEmpty_def GetTxStateDeltaHash_def
      map_index_def)

text \<open>
  C9. While no transaction is in flight, \<^verbatim>\<open>TxFinish\<close> with the empty string as id does
  not panic: the ids are equal; with success an entry is recorded under the empty
  string, and the call returns as for a transaction that had begun.
\<close>

theorem TxFinish_without_TxBegin:
  assumes "\<not> txInProgress state"
  shows "fst (TxFinish delta_ComputeCryptoHash state [] txSuccessful) = Inr ()
       \<and> [] \<in> dom (txStateDeltaHash (snd (TxFinish delta_ComputeCryptoHash state [] True)))
       \<and> txStateDeltaHash (snd (TxFinish delta_ComputeCryptoHash state [] True)) []
            = Some (if delta_IsEmpty (currentTxStateDelta state) then None
                    else delta_ComputeCryptoHash (currentTxStateDelta state))
       \<and> \<not> txInProgress (snd (TxFinish delta_ComputeCryptoHash state [] txSuccessful))"
  using assms
  by (simp add: TxFinish_def txInProgress_def Let_def)

text \<open>On a fresh manager.\<close>

theorem TxFinish_without_TxBegin_witness:
  "\<not> txInProgress state_fresh
   \<and> TxFinish double_hash state_fresh [] True
       = (Inr (), state_fresh\<lparr>txStateDeltaHash := [[] \<mapsto> None]\<rparr>)
   \<and> TxFinish double_hash state_fresh [] False = (Inr (), state_fresh)"
proof -
  have a: "\<not> txInProgress state_fresh"
    by (simp add: state_fresh_eval txInProgress_def)
  from TxFinish_without_TxBegin [OF a, of double_hash True] a
  show ?thesis
    by (simp add: TxFinish_def state_fresh_eval delta_IsEmpty_def NewStateDelta_def)
qed

section \<open>Reading a delta of the history\<close>

text \<open>
  C6. \<^verbatim>\<open>FetchStateDeltaFromDB\<close> returns no delta and no error when the read of the
  history key finds nothing; it returns the error of the read when the read fails; and
  otherwise it returns the delta unmarshalled from the bytes read.
\<close>

theorem FetchStateDeltaFromDB_results:
  "(GetFromStateDeltaCF (encodeStateDeltaKey blockNumber) = (None, None) \<longrightarrow>
      FetchStateDeltaFromDB GetFromStateDeltaCF delta_Unmarshal blockNumber = (None, None))
   \<and> (snd (GetFromStateDeltaCF (encodeStateDeltaKey blockNumber)) = Some err \<longrightarrow>
      FetchStateDeltaFromDB GetFromStateDeltaCF delta_Unmarshal blockNumber = (None, Some err))
   \<and> (GetFromStateDeltaCF (encodeStateDeltaKey blockNumber) = (Some stateDeltaBytes, None) \<longrightarrow>
      FetchStateDeltaFromDB GetFromStateDeltaCF delta_Unmarshal blockNumber
        = (Some (delta_Unmarshal NewStateDelta stateDeltaBytes), None))"
  by (simp add: FetchStateDeltaFromDB_def Let_def)

text \<open>A history holding block 7 only: block 8 read, a failing read, block 7 read.\<close>

theorem FetchStateDeltaFromDB_results_witness:
  "double_GetFromStateDeltaCF False [encodeStateDeltaKey 7 \<mapsto> Some [2]] (encodeStateDeltaKey 8)
     = (None, None)
   \<and> FetchStateDeltaFromDB
        (double_GetFromStateDeltaCF False [encodeStateDeltaKey 7 \<mapsto> Some [2]]) double_Unmarshal 8
     = (None, None)
   \<and> snd (double_GetFromStateDeltaCF True [encodeStateDeltaKey 7 \<mapsto> Some [2]]
        (encodeStateDeltaKey 7)) = Some (Error ''IO error'')
   \<and> FetchStateDeltaFromDB
        (double_GetFromStateDeltaCF True [encodeStateDeltaKey 7 \<mapsto> Some [2]]) double_Unmarshal 7
     = (None, Some (Error ''IO error''))
   \<and> double_GetFromStateDeltaCF False [encodeStateDeltaKey 7 \<mapsto> Some [2]] (encodeStateDeltaKey 7)
     = (Some [2], None)
   \<and> FetchStateDeltaFromDB
        (double_GetFromStateDeltaCF False [encodeStateDeltaKey 7 \<mapsto> Some [2]]) double_Unmarshal 7
     = (Some [((''cc'', ''k''), SetTo [2])], None)"
proof -
  have ne: "encodeStateDeltaKey 8 \<noteq> encodeStateDeltaKey 7"
    by (simp add: encodeStateDeltaKey_def encodeUint64_inject)
  have a: "double_GetFromStateDeltaCF False [encodeStateDeltaKey 7 \<mapsto> Some [2]]
      (encodeStateDeltaKey 8) = (None, None)"
    using ne by (simp add: double_GetFromStateDeltaCF_def)
  have b: "snd (double_GetFromStateDeltaCF True [encodeStateDeltaKey 7 \<mapsto> Some [2]]
      (encodeStateDeltaKey 7)) = Some (Error ''IO error'')"
    by (simp add: double_GetFromStateDeltaCF_def)
  have c: "double_GetFromStateDeltaCF False [encodeStateDeltaKey 7 \<mapsto> Some [2]]
      (encodeStateDeltaKey 7) = (Some [2], None)"
    by (simp add: double_GetFromStateDeltaCF_def)
  have d: "double_Unmarshal NewStateDelta [2] = [((''cc'', ''k''), SetTo [2])]"
    by (simp add: double_Unmarshal_def NewStateDelta_def)
  from FetchStateDeltaFromDB_results
      [where GetFromStateDeltaCF
          = "double_GetFromStateDeltaCF False [encodeStateDeltaKey 7 \<mapsto> Some [2]]"
        and blockNumber = 8 and delta_Unmarshal = double_Unmarshal]
    FetchStateDeltaFromDB_results
      [where GetFromStateDeltaCF
          = "double_GetFromStateDeltaCF True [encodeStateDeltaKey 7 \<mapsto> Some [2]]"
        and blockNumber = 7 and delta_Unmarshal = double_Unmarshal
        and err = "Error ''IO error''"]
    FetchStateDeltaFromDB_results
      [where GetFromStateDeltaCF
          = "double_GetFromStateDeltaCF False [encodeStateDeltaKey 7 \<mapsto> Some [2]]"
        and blockNumber = 7 and delta_Unmarshal = double_Unmarshal
        and stateDeltaBytes = "[2]"]
    a b c d
  show ?thesis
    by simp
qed

section \<open>The hash of the state and the working set\<close>




lemma GetHash_state:
  "snd (GetHash impl state)
     = (prepareIfNeeded impl state)
         \<lparr>stateImpl := snd (impl_ComputeCryptoHash impl (stateImpl (prepareIfNeeded impl state)))\<rparr>"
  by (simp add: GetHash_def Let_def split: option.split)









text \<open>
  C10. \<^verbatim>\<open>ClearInMemoryChanges\<close> leaves the flag \<^verbatim>\<open>updateStateImpl\<close> as it was, while it
  replaces the aggregate delta by a new one, empties the map of hashes and clears the
  working set. If the flag was set, the next \<^verbatim>\<open>GetHash\<close> or
  \<^verbatim>\<open>AddChangesForPersistence\<close> hands the new, empty aggregate delta to
  \<^verbatim>\<open>PrepareWorkingSet\<close>.
\<close>

theorem ClearInMemoryChanges_keeps_flag:
  "updateStateImpl (ClearInMemoryChanges impl state) = updateStateImpl state
   \<and> stateDelta (ClearInMemoryChanges impl state) = NewStateDelta
   \<and> txStateDeltaHash (ClearInMemoryChanges impl state) = Map.empty
   \<and> stateImpl (ClearInMemoryChanges impl state) = impl_ClearWorkingSet impl (stateImpl state)
   \<and> (updateStateImpl state \<longrightarrow>
        stateImpl (snd (GetHash impl (ClearInMemoryChanges impl state)))
          = snd (impl_ComputeCryptoHash impl
              (impl_PrepareWorkingSet impl (impl_ClearWorkingSet impl (stateImpl state))
                 NewStateDelta))
        \<and> stateImpl (fst (AddChangesForPersistence impl delta_Marshal cf
             (ClearInMemoryChanges impl state) blockNumber writeBatch))
          = fst (impl_AddChangesForPersistence impl
              (impl_PrepareWorkingSet impl (impl_ClearWorkingSet impl (stateImpl state))
                 NewStateDelta) writeBatch))"
  by (simp add: ClearInMemoryChanges_def GetHash_state prepareIfNeeded_def
      AddChangesForPersistence_def Let_def)

text \<open>After transaction t1, with the flag set and no call of \<^verbatim>\<open>GetHash\<close> yet.\<close>

theorem ClearInMemoryChanges_keeps_flag_witness:
  "updateStateImpl state_done
   \<and> updateStateImpl (ClearInMemoryChanges (counting double_impl) state_done)
   \<and> stateDelta (ClearInMemoryChanges (counting double_impl) state_done) = []
   \<and> stateImpl (ClearInMemoryChanges (counting double_impl) state_done) = ([], 0)
   \<and> stateImpl (snd (GetHash (counting double_impl)
        (ClearInMemoryChanges (counting double_impl) state_done))) = ([], 1)
   \<and> stateImpl (fst (AddChangesForPersistence (counting double_impl) double_Marshal StateDeltaCF
        (ClearInMemoryChanges (counting double_impl) state_done) 7 [])) = ([], 1)"
proof -
  have a: "updateStateImpl state_done" "stateImpl state_done = ([], 0)"
    by (simp_all add: state_done_eval)
  from ClearInMemoryChanges_keeps_flag
      [of "counting double_impl" state_done double_Marshal StateDeltaCF 7 "[]"] a
  show ?thesis
    by (simp add: counting_def double_impl_def NewStateDelta_def)
qed

section \<open>Staging a block and the retention window\<close>

lemma Write_cf_append: "Write_cf cf (xs @ ys) m = Write_cf cf ys (Write_cf cf xs m)"
  by (induction cf xs m rule: Write_cf.induct) simp_all

lemma Write_cf_other: "cf \<notin> set (map op_cf xs) \<Longrightarrow> Write_cf cf xs m = m"
  by (induction cf xs m rule: Write_cf.induct) auto

lemma AddChangesForPersistence_batch:
  "snd (AddChangesForPersistence impl delta_Marshal cf state blockNumber writeBatch)
     = snd (impl_AddChangesForPersistence impl (stateImpl (prepareIfNeeded impl state)) writeBatch)
       @ PutCF cf (encodeStateDeltaKey blockNumber) (delta_Marshal (stateDelta state))
       # (if blockNumber \<ge> historyStateDeltaSize
          then [DeleteCF cf (encodeStateDeltaKey (blockNumber - historyStateDeltaSize))]
          else [])"
  by (simp add: AddChangesForPersistence_def Let_def prepareIfNeeded_def)

lemma history_size_unat: "unat historyStateDeltaSize = 500"
  by (simp add: historyStateDeltaSize_def)

lemma no_underflow:
  "blockNumber \<ge> historyStateDeltaSize \<Longrightarrow>
     unat (blockNumber - historyStateDeltaSize) + unat historyStateDeltaSize = unat blockNumber"
  by (simp add: unat_sub word_le_nat_alt)

text \<open>
  The keys of the history after the commit of the batch: those it holds once the
  operations that precede the two of the manager are applied, with the key of the block
  added and then the key of the block that leaves the window removed.
\<close>

lemma dom_staged:
  "dom (Write_cf cf
     (snd (AddChangesForPersistence impl delta_Marshal cf state blockNumber writeBatch)) log)
     = insert (encodeStateDeltaKey blockNumber)
         (dom (Write_cf cf
            (snd (impl_AddChangesForPersistence impl (stateImpl (prepareIfNeeded impl state))
               writeBatch)) log))
       - (if blockNumber \<ge> historyStateDeltaSize
          then {encodeStateDeltaKey (blockNumber - historyStateDeltaSize)} else {})"
  by (simp add: AddChangesForPersistence_batch Write_cf_append)

lemma encodeStateDeltaKey_inject:
  "(encodeStateDeltaKey m = encodeStateDeltaKey n) = (m = n)"
  by (simp add: encodeStateDeltaKey_def encodeUint64_inject)

text \<open>A retention window holds at most \<open>historyStateDeltaSize\<close> block numbers.\<close>

lemma card_history_window: "card (history_window m) \<le> unat historyStateDeltaSize"
proof -
  have "unat ` history_window m \<subseteq> {m - unat historyStateDeltaSize ..< m}"
    by (auto simp add: history_window_def)
  then have "card (unat ` history_window m) \<le> card {m - unat historyStateDeltaSize ..< m}"
    by (intro card_mono) simp_all
  moreover have "card (unat ` history_window m) = card (history_window m)"
    by (intro card_image inj_onI) (simp add: word_unat_eq_iff)
  ultimately show ?thesis by simp
qed

lemma card_keys_history_window:
  assumes "A \<subseteq> encodeStateDeltaKey ` history_window m"
  shows "card A \<le> unat historyStateDeltaSize"
proof -
  have "card A \<le> card (encodeStateDeltaKey ` history_window m)"
    using assms by (intro card_mono) simp_all
  also have "\<dots> \<le> card (history_window m)"
    by (intro card_image_le) simp
  also have "\<dots> \<le> unat historyStateDeltaSize"
    by (rule card_history_window)
  finally show ?thesis .
qed

text \<open>
  Staging and committing block \<open>blockNumber\<close> moves the window by one: a history that is
  within the window below \<open>blockNumber\<close>, once the operations that precede the two of
  the manager are applied, is after the commit within the window below the successor of
  \<open>blockNumber\<close>.
\<close>

lemma history_step:
  assumes inv: "dom (Write_cf cf
      (snd (impl_AddChangesForPersistence impl (stateImpl (prepareIfNeeded impl state))
         writeBatch)) log)
      \<subseteq> encodeStateDeltaKey ` history_window (unat blockNumber)"
  shows "dom (Write_cf cf
           (snd (AddChangesForPersistence impl delta_Marshal cf state blockNumber writeBatch)) log)
     \<subseteq> encodeStateDeltaKey ` history_window (Suc (unat blockNumber))"
proof
  let ?before = "dom (Write_cf cf
      (snd (impl_AddChangesForPersistence impl (stateImpl (prepareIfNeeded impl state))
         writeBatch)) log)"
  fix x
  assume "x \<in> dom (Write_cf cf
      (snd (AddChangesForPersistence impl delta_Marshal cf state blockNumber writeBatch)) log)"
  then have x: "x \<in> insert (encodeStateDeltaKey blockNumber) ?before
       - (if blockNumber \<ge> historyStateDeltaSize
          then {encodeStateDeltaKey (blockNumber - historyStateDeltaSize)} else {})"
    by (simp only: dom_staged)
  show "x \<in> encodeStateDeltaKey ` history_window (Suc (unat blockNumber))"
  proof (cases "x = encodeStateDeltaKey blockNumber")
    case True
    have "blockNumber \<in> history_window (Suc (unat blockNumber))"
      by (simp add: history_window_def history_size_unat)
    with True show ?thesis by blast
  next
    case False
    with x have "x \<in> ?before" by simp
    with inv obtain k where k: "x = encodeStateDeltaKey k" "k \<in> history_window (unat blockNumber)"
      by blast
    have "k \<in> history_window (Suc (unat blockNumber))"
    proof (cases "blockNumber \<ge> historyStateDeltaSize")
      case True
      with x k have "k \<noteq> blockNumber - historyStateDeltaSize"
        by auto
      then have "unat k \<noteq> unat (blockNumber - historyStateDeltaSize)"
        by (simp add: word_unat_eq_iff)
      with no_underflow [OF True] k(2) show ?thesis
        by (simp add: history_window_def)
    next
      case False
      then have "unat blockNumber < unat historyStateDeltaSize"
        by (simp add: word_le_nat_alt)
      with k(2) show ?thesis
        by (simp add: history_window_def)
    qed
    with k(1) show ?thesis by blast
  qed
qed

text \<open>
  C4, amended. For every block number and batch: \<^verbatim>\<open>AddChangesForPersistence\<close> appends to
  the batch, as the hashable state leaves it, the write of the marshalled aggregate delta
  under the history key of the block number, and after it the deletion of the history
  key of \<open>blockNumber - historyStateDeltaSize\<close> exactly when
  \<open>blockNumber \<ge> historyStateDeltaSize\<close>; that subtraction does not wrap around. If the
  history, once the operations that the batch holds when the hashable state has staged
  its changes are applied to it, holds only keys of the \<open>historyStateDeltaSize\<close> blocks
  before \<open>blockNumber\<close>, then after the commit of the whole batch it holds only keys of
  the \<open>historyStateDeltaSize\<close> blocks up to \<open>blockNumber\<close>, and so at most
  \<open>historyStateDeltaSize\<close> entries.
\<close>

theorem AddChangesForPersistence_history:
  "snd (AddChangesForPersistence impl delta_Marshal cf state blockNumber writeBatch)
     = snd (impl_AddChangesForPersistence impl (stateImpl (prepareIfNeeded impl state)) writeBatch)
       @ PutCF cf (encodeStateDeltaKey blockNumber) (delta_Marshal (stateDelta state))
       # (if blockNumber \<ge> historyStateDeltaSize
          then [DeleteCF cf (encodeStateDeltaKey (blockNumber - historyStateDeltaSize))]
          else [])
   \<and> (blockNumber \<ge> historyStateDeltaSize \<longrightarrow>
        uint (blockNumber - historyStateDeltaSize) = uint blockNumber - uint historyStateDeltaSize)
   \<and> (dom (Write_cf cf
             (snd (impl_AddChangesForPersistence impl (stateImpl (prepareIfNeeded impl state))
                writeBatch)) log)
          \<subseteq> encodeStateDeltaKey ` history_window (unat blockNumber) \<longrightarrow>
        dom (Write_cf cf
             (snd (AddChangesForPersistence impl delta_Marshal cf state blockNumber writeBatch)) log)
          \<subseteq> encodeStateDeltaKey ` history_window (Suc (unat blockNumber))
        \<and> card (dom (Write_cf cf
             (snd (AddChangesForPersistence impl delta_Marshal cf state blockNumber writeBatch))
             log)) \<le> unat historyStateDeltaSize)"
proof (intro conjI impI)
  show "snd (AddChangesForPersistence impl delta_Marshal cf state blockNumber writeBatch)
     = snd (impl_AddChangesForPersistence impl (stateImpl (prepareIfNeeded impl state)) writeBatch)
       @ PutCF cf (encodeStateDeltaKey blockNumber) (delta_Marshal (stateDelta state))
       # (if blockNumber \<ge> historyStateDeltaSize
          then [DeleteCF cf (encodeStateDeltaKey (blockNumber - historyStateDeltaSize))]
          else [])"
    by (rule AddChangesForPersistence_batch)
next
  assume "blockNumber \<ge> historyStateDeltaSize"
  then show "uint (blockNumber - historyStateDeltaSize) = uint blockNumber - uint historyStateDeltaSize"
    by (simp only: word_le_def uint_sub_lem)
next
  assume "dom (Write_cf cf
             (snd (impl_AddChangesForPersistence impl (stateImpl (prepareIfNeeded impl state))
                writeBatch)) log)
          \<subseteq> encodeStateDeltaKey ` history_window (unat blockNumber)"
  then show step: "dom (Write_cf cf
             (snd (AddChangesForPersistence impl delta_Marshal cf state blockNumber writeBatch)) log)
          \<subseteq> encodeStateDeltaKey ` history_window (Suc (unat blockNumber))"
    by (rule history_step)
  then show "card (dom (Write_cf cf
             (snd (AddChangesForPersistence impl delta_Marshal cf state blockNumber writeBatch))
             log)) \<le> unat historyStateDeltaSize"
    by (rule card_keys_history_window)
qed

text \<open>
  Blocks committed in consecutive order, from block 0 and an empty history, with a
  hashable state that stages nothing into the column family of the history.
\<close>

lemma unat_of_block: "j < 2 ^ 64 \<Longrightarrow> unat (of_nat j :: 64 word) = j"
  by (simp add: unsigned_of_nat take_bit_nat_eq_self)

lemma snd_commit_block:
  "snd (commit_block impl delta_Marshal cf sl blockNumber)
     = Write_cf cf
         (snd (AddChangesForPersistence impl delta_Marshal cf (snd (GetHash impl (fst sl)))
            blockNumber []))
         (snd sl)"
  by (simp add: commit_block_def Let_def)

lemma consecutive_history_window:
  assumes other: "\<forall>p. cf \<notin> set (map op_cf (snd (impl_AddChangesForPersistence impl p [])))"
    and "N \<le> 2 ^ 64"
  shows "dom (snd (foldl (commit_block impl delta_Marshal cf) (state, Map.empty)
            (map of_nat [0..<N])))
     \<subseteq> encodeStateDeltaKey ` history_window N"
  using \<open>N \<le> 2 ^ 64\<close>
proof (induction N)
  case 0
  show ?case by simp
next
  case (Suc N)
  then have N: "unat (of_nat N :: 64 word) = N"
    by (simp add: unat_of_block)
  let ?sl = "foldl (commit_block impl delta_Marshal cf) (state, Map.empty) (map of_nat [0..<N])"
  from Suc have "dom (snd ?sl) \<subseteq> encodeStateDeltaKey ` history_window (unat (of_nat N :: 64 word))"
    by (simp add: N)
  with other have "dom (snd (commit_block impl delta_Marshal cf ?sl (of_nat N)))
      \<subseteq> encodeStateDeltaKey ` history_window (Suc (unat (of_nat N :: 64 word)))"
    by (simp only: snd_commit_block) (intro history_step, simp add: Write_cf_other)
  then show ?case
    by (simp add: N)
qed

lemma consecutive_history_bounded:
  assumes "\<forall>p. cf \<notin> set (map op_cf (snd (impl_AddChangesForPersistence impl p [])))"
    and "N \<le> 2 ^ 64"
  shows "card (dom (snd (foldl (commit_block impl delta_Marshal cf) (state, Map.empty)
            (map of_nat [0..<N])))) \<le> unat historyStateDeltaSize"
  using consecutive_history_window [OF assms] by (rule card_keys_history_window)

text \<open>The keys of the history after a block, whatever the order of the blocks.\<close>

lemma dom_commit_block:
  assumes "\<forall>p. cf \<notin> set (map op_cf (snd (impl_AddChangesForPersistence impl p [])))"
  shows "dom (snd (commit_block impl delta_Marshal cf sl blockNumber))
     = insert (encodeStateDeltaKey blockNumber) (dom (snd sl))
       - (if blockNumber \<ge> historyStateDeltaSize
          then {encodeStateDeltaKey (blockNumber - historyStateDeltaSize)} else {})"
  using assms by (simp only: snd_commit_block dom_staged) (simp add: Write_cf_other)

lemma dom_first_blocks:
  assumes other: "\<forall>p. cf \<notin> set (map op_cf (snd (impl_AddChangesForPersistence impl p [])))"
    and "N \<le> 500"
  shows "dom (snd (foldl (commit_block impl delta_Marshal cf) (state, Map.empty)
            (map of_nat [0..<N])))
     = encodeStateDeltaKey ` of_nat ` {0..<N}"
  using \<open>N \<le> 500\<close>
proof (induction N)
  case 0
  show ?case by simp
next
  case (Suc N)
  then have "unat (of_nat N :: 64 word) = N" and "N < 500"
    by (simp_all add: unat_of_block)
  then have "\<not> (of_nat N :: 64 word) \<ge> historyStateDeltaSize"
    by (simp add: word_le_nat_alt history_size_unat)
  with Suc show ?case
    by (simp add: dom_commit_block [OF other] atLeast0_lessThan_Suc)
qed

lemma double_impl_other:
  "\<forall>p. StateDeltaCF \<notin> set (map op_cf
     (snd (impl_AddChangesForPersistence (counting double_impl) p [])))"
  by (simp add: counting_def double_impl_def)

text \<open>
  C4 as stated fails: the history can exceed \<open>historyStateDeltaSize\<close> entries. After the
  blocks 0 to 499, staging and committing block 1000 deletes the key of block 500, which
  the history does not hold, and the history then has 501 entries.
\<close>

theorem history_exceeds_window_counterexample:
  "\<not> card (dom (snd (foldl (commit_block (counting double_impl) double_Marshal StateDeltaCF)
        (state_fresh, Map.empty) (map of_nat [0..<500] @ [1000]))))
      \<le> unat historyStateDeltaSize"
proof -
  let ?keys = "encodeStateDeltaKey ` of_nat ` {0..<500::nat}"
  have small: "unat (of_nat j :: 64 word) = j" if "j < 500" for j
    using that by (simp add: unat_of_block)
  have inj: "inj_on (\<lambda>j. encodeStateDeltaKey (of_nat j)) {0..<500::nat}"
  proof (rule inj_onI)
    fix i j :: nat
    assume "i \<in> {0..<500}" "j \<in> {0..<500}"
      and "encodeStateDeltaKey (of_nat i) = encodeStateDeltaKey (of_nat j)"
    then have "unat (of_nat i :: 64 word) = unat (of_nat j :: 64 word)"
      by (simp add: encodeStateDeltaKey_inject)
    with \<open>i \<in> {0..<500}\<close> \<open>j \<in> {0..<500}\<close> show "i = j"
      by (simp add: small)
  qed
  have card_keys: "card ?keys = 500"
    using card_image [OF inj] by (simp add: image_image)
  have out: "encodeStateDeltaKey w \<notin> ?keys" if "unat w \<ge> 500" for w
  proof
    assume "encodeStateDeltaKey w \<in> ?keys"
    then obtain j where "j < 500" "w = of_nat j"
      by (auto simp add: encodeStateDeltaKey_inject)
    with small [of j] that show False by simp
  qed
  have "dom (snd (foldl (commit_block (counting double_impl) double_Marshal StateDeltaCF)
        (state_fresh, Map.empty) (map of_nat [0..<500] @ [1000])))
      = insert (encodeStateDeltaKey 1000) ?keys - {encodeStateDeltaKey 500}"
    by (simp add: dom_commit_block [OF double_impl_other]
        dom_first_blocks [OF double_impl_other] historyStateDeltaSize_def)
  also have "\<dots> = insert (encodeStateDeltaKey 1000) ?keys"
    using out [of 500] by (simp add: encodeStateDeltaKey_inject)
  finally have "card (dom (snd (foldl (commit_block (counting double_impl) double_Marshal StateDeltaCF)
        (state_fresh, Map.empty) (map of_nat [0..<500] @ [1000])))) = 501"
    using out [of 1000] card_keys by simp
  then show ?thesis
    by (simp add: history_size_unat)
qed

text \<open>
  Block 600 staged after transaction t1, onto a history that holds block 100: the batch
  deletes the key of block 100.
\<close>

theorem AddChangesForPersistence_history_witness:
  "historyStateDeltaSize \<le> 600
   \<and> uint (600 - historyStateDeltaSize) = 100
   \<and> snd (AddChangesForPersistence (counting double_impl) double_Marshal StateDeltaCF
        state_done 600 [])
       = [PutCF StateCF [0] (Some [1]), PutCF StateDeltaCF (encodeStateDeltaKey 600) (Some [2]),
          DeleteCF StateDeltaCF (encodeStateDeltaKey 100)]
   \<and> dom (Write_cf StateDeltaCF
        (snd (impl_AddChangesForPersistence (counting double_impl)
           (stateImpl (prepareIfNeeded (counting double_impl) state_done)) []))
        [encodeStateDeltaKey 100 \<mapsto> Some [1]])
       \<subseteq> encodeStateDeltaKey ` history_window 600
   \<and> dom (Write_cf StateDeltaCF
        (snd (AddChangesForPersistence (counting double_impl) double_Marshal StateDeltaCF
          state_done 600 []))
        [encodeStateDeltaKey 100 \<mapsto> Some [1]]) = {encodeStateDeltaKey 600}
   \<and> card (dom (Write_cf StateDeltaCF
        (snd (AddChangesForPersistence (counting double_impl) double_Marshal StateDeltaCF
          state_done 600 []))
        [encodeStateDeltaKey 100 \<mapsto> Some [1]])) \<le> unat historyStateDeltaSize"
proof -
  have a: "historyStateDeltaSize \<le> 600"
    by (simp add: historyStateDeltaSize_def)
  have f: "uint (600 - historyStateDeltaSize) = 100"
    by (simp add: historyStateDeltaSize_def)
  have b: "snd (impl_AddChangesForPersistence (counting double_impl)
        (stateImpl (prepareIfNeeded (counting double_impl) state_done)) [])
      = [PutCF StateCF [0] (Some [1])]"
    by (simp add: counting_def double_impl_def)
  have "(100 :: 64 word) \<in> history_window 600"
    by (simp add: history_window_def history_size_unat)
  then have c: "dom (Write_cf StateDeltaCF
        (snd (impl_AddChangesForPersistence (counting double_impl)
           (stateImpl (prepareIfNeeded (counting double_impl) state_done)) []))
        [encodeStateDeltaKey 100 \<mapsto> Some [1]])
       \<subseteq> encodeStateDeltaKey ` history_window 600"
    by (simp add: b)
  then have c': "dom (Write_cf StateDeltaCF
        (snd (impl_AddChangesForPersistence (counting double_impl)
           (stateImpl (prepareIfNeeded (counting double_impl) state_done)) []))
        [encodeStateDeltaKey 100 \<mapsto> Some [1]])
       \<subseteq> encodeStateDeltaKey ` history_window (unat (600 :: 64 word))"
    by simp
  have d: "snd (AddChangesForPersistence (counting double_impl) double_Marshal StateDeltaCF
        state_done 600 [])
       = [PutCF StateCF [0] (Some [1]), PutCF StateDeltaCF (encodeStateDeltaKey 600) (Some [2]),
          DeleteCF StateDeltaCF (encodeStateDeltaKey 100)]"
    by (simp add: AddChangesForPersistence_def Let_def a f prepareIfNeeded_def state_done_eval
        counting_def double_impl_def double_Marshal_def historyStateDeltaSize_def)
  have e: "dom (Write_cf StateDeltaCF
        (snd (AddChangesForPersistence (counting double_impl) double_Marshal StateDeltaCF
          state_done 600 []))
        [encodeStateDeltaKey 100 \<mapsto> Some [1]]) = {encodeStateDeltaKey 600}"
    unfolding d by (auto simp add: encodeStateDeltaKey_inject)
  from AddChangesForPersistence_history
      [of "counting double_impl" double_Marshal StateDeltaCF state_done 600 "[]"
        "[encodeStateDeltaKey 100 \<mapsto> Some [1]]"] c'
  have g: "card (dom (Write_cf StateDeltaCF
        (snd (AddChangesForPersistence (counting double_impl) double_Marshal StateDeltaCF
          state_done 600 []))
        [encodeStateDeltaKey 100 \<mapsto> Some [1]])) \<le> unat historyStateDeltaSize"
    by blast
  from a f d c e g show ?thesis
    by blast
qed

end
